theory Spec2Isabelle
  imports Main "HOL-Library.Word"
begin

unbundle bit_operations_syntax

section \<open>Lease ids and their textual form\<close>

text \<open>
  \<^verbatim>\<open>clientv3.LeaseID\<close> is an \<^verbatim>\<open>int64\<close>: a 64-bit word read in two's complement
  (\<open>sint\<close>).  \<^verbatim>\<open>initLease\<close> persists it with \<^verbatim>\<open>fmt.Sprintf("%x", lease)\<close> and
  \<^verbatim>\<open>strTolease\<close> reads it back with \<^verbatim>\<open>strconv.ParseInt(s, 16, 64)\<close>.  Both library
  routines are transcribed below from the Go standard library, restricted to the
  arguments this program passes (base 16, 64 bits, no flags, no width).
\<close>

type_synonym LeaseID = "64 word"

datatype strconv_err = ErrSyntax | ErrRange

text \<open>\<^verbatim>\<open>func lower(c byte) byte { return c | ('x' - 'X') }\<close>\<close>

definition lower :: "8 word \<Rightarrow> 8 word" where
  "lower c = c OR 32"

text \<open>
  The digit of one byte in \<^verbatim>\<open>ParseUint\<close>: \<^verbatim>\<open>'0'..'9'\<close> count from 0, a letter (either
  case) counts from 10, any other byte is a syntax error (\<open>None\<close>).
\<close>

definition digit_of :: "char \<Rightarrow> nat option" where
  "digit_of ch =
     (let c = (of_char ch :: 8 word) in
      if 48 \<le> c \<and> c \<le> 57 then Some (unat (c - 48))
      else if 97 \<le> lower c \<and> lower c \<le> 122 then Some (unat (lower c - 97 + 10))
      else None)"

definition maxVal :: nat where
  "maxVal = 2 ^ 64 - 1"

definition cutoff16 :: nat where
  "cutoff16 = maxVal div 16 + 1"

text \<open>
  The loop of \<^verbatim>\<open>ParseUint(s, 16, 64)\<close> over the bytes of \<open>s\<close>, with the accumulator
  \<open>n\<close> a \<^verbatim>\<open>uint64\<close> (a natural number below \<open>2 ^ 64\<close>, the wrap-around of \<^verbatim>\<open>n *= 16\<close> and
  of \<^verbatim>\<open>n + d\<close> written out).  It returns the value and the error, as the Go function
  does: \<open>(0, ErrSyntax)\<close> or \<open>(maxVal, ErrRange)\<close> on failure.
\<close>

fun ParseUint_loop :: "nat \<Rightarrow> string \<Rightarrow> nat \<times> strconv_err option" where
  "ParseUint_loop n [] = (n, None)"
| "ParseUint_loop n (ch # cs) =
     (case digit_of ch of
        None \<Rightarrow> (0, Some ErrSyntax)
      | Some d \<Rightarrow>
          if d \<ge> 16 then (0, Some ErrSyntax)
          else if n \<ge> cutoff16 then (maxVal, Some ErrRange)
          else
            let n' = (n * 16) mod 2 ^ 64;
                n1 = (n' + d) mod 2 ^ 64
            in if n1 < n' \<or> n1 > maxVal then (maxVal, Some ErrRange)
               else ParseUint_loop n1 cs)"

definition ParseUint :: "string \<Rightarrow> nat \<times> strconv_err option" where
  "ParseUint s = (if s = [] then (0, Some ErrSyntax) else ParseUint_loop 0 s)"

text \<open>
  \<^verbatim>\<open>ParseInt(s, 16, 64)\<close>: the empty string is a syntax error; a leading \<^verbatim>\<open>+\<close> or \<^verbatim>\<open>-\<close>
  is picked off; the magnitude is parsed unsigned and checked against \<open>2 ^ 63\<close>.
\<close>

definition ParseInt :: "string \<Rightarrow> 64 word \<times> strconv_err option" where
  "ParseInt s0 =
     (if s0 = [] then (0, Some ErrSyntax)
      else
        let neg = (hd s0 = CHR ''-'');
            s = (if hd s0 = CHR ''+'' \<or> hd s0 = CHR ''-'' then tl s0 else s0);
            (un, err) = ParseUint s;
            cutoff = (2 ^ 63 :: nat)
        in if err = Some ErrSyntax then (0, err)
           else if \<not> neg \<and> un \<ge> cutoff then (word_of_nat (cutoff - 1), Some ErrRange)
           else if neg \<and> un > cutoff then (- word_of_nat cutoff, Some ErrRange)
           else
             let n = (word_of_nat un :: 64 word)
             in (if neg then - n else n, None))"

text \<open>\<^verbatim>\<open>strTolease\<close> (cluster.go, lines 72-78).\<close>

definition strTolease :: "string \<Rightarrow> strconv_err + LeaseID" where
  "strTolease s =
     (case ParseInt s of
        (lease, Some err) \<Rightarrow> Inl err
      | (lease, None) \<Rightarrow> Inr lease)"

text \<open>
  \<^verbatim>\<open>fmt.Sprintf("%x", lease)\<close> on an \<^verbatim>\<open>int64\<close>: \<^verbatim>\<open>fmtInteger\<close> negates a negative value
  in \<^verbatim>\<open>uint64\<close> arithmetic, writes the hexadecimal digits of the magnitude from the
  right end of its buffer (\<^verbatim>\<open>for u >= 16 { buf[i] = digits[u&0xF]; u >>= 4 }\<close>, then the
  last digit), and puts the sign in front.
\<close>

definition ldigits :: string where
  "ldigits = ''0123456789abcdefx''"

function fmt_hex_loop :: "nat \<Rightarrow> string \<Rightarrow> string" where
  "fmt_hex_loop u buf =
     (if u \<ge> 16 then fmt_hex_loop (u div 16) (ldigits ! (u mod 16) # buf)
      else ldigits ! u # buf)"
  by pat_completeness auto
termination
  by (relation "measure fst") auto

declare fmt_hex_loop.simps [simp del]

definition fmt_x :: "LeaseID \<Rightarrow> string" where
  "fmt_x l =
     (let negative = (sint l < 0);
          u = unat (if negative then - l else l);
          digits = fmt_hex_loop u []
      in if negative then CHR ''-'' # digits else digits)"

section \<open>The cluster, the store and the process environment\<close>

text \<open>
  \<^verbatim>\<open>option.Options\<close>, the fields this file reads.
\<close>

record Options =
  ClusterRole :: string
  ForceNewCluster :: bool
  ClusterPeerURL :: string

text \<open>
  The key layout (\<^verbatim>\<open>c.Layout()\<close>) is declared outside this file; only the three keys it
  hands out are used here, so they are parameters of the model.
\<close>

record Layout =
  Lease_key :: string
  StatusMemberKey :: string
  OtherLease :: "string \<Rightarrow> string"

text \<open>
  Modelled from the spec: the membership registry (\<^verbatim>\<open>c.members\<close>, with \<^verbatim>\<open>self\<close>,
  \<^verbatim>\<open>knownPeerURLs\<close> and \<^verbatim>\<open>updateClusterMembers\<close>) is declared outside this file.  It
  holds the local identity (name, id, peer URL), the known members with their peer
  URLs, and the last member list taken from the store.
\<close>

record member =
  Name :: string
  ID :: "64 word"
  PeerURL :: string

text \<open>\<^verbatim>\<open>etcdserverpb.Member\<close>, an entry of the store's member list.\<close>

record pb_member =
  pb_ID :: "64 word"
  pb_Name :: string
  pb_PeerURLs :: "string list"

record members =
  self_member :: member
  known :: "member list"
  cluster_view :: "pb_member list"

text \<open>Modelled from the spec: the peer URLs of the known members.\<close>

definition knownPeerURLs :: "members \<Rightarrow> string list" where
  "knownPeerURLs ms = map PeerURL (known ms)"

text \<open>
  Modelled from the spec: the membership refresh overwrites the local view with the
  store's member list.
\<close>

definition updateClusterMembers :: "pb_member list \<Rightarrow> members \<Rightarrow> members" where
  "updateClusterMembers pbs ms = ms\<lparr>cluster_view := pbs\<rparr>"

text \<open>
  Handles (\<^verbatim>\<open>*clientv3.Client\<close>, \<^verbatim>\<open>*concurrency.Session\<close>, \<^verbatim>\<open>*embed.Etcd\<close>) are pointers;
  the model names each by the position, in the trace of external calls, of the call
  that constructed it, so two constructions never give the same handle.
\<close>

type_synonym handle = nat

text \<open>
  The calls this file makes on etcd, the embedded server and the runtime, with the
  arguments that matter here.  \<open>TimeAfter d\<close> is \<^verbatim>\<open>time.After\<close> with \<open>d\<close> seconds.
  \<open>PrepareEtcdConfig\<close> is \<^verbatim>\<open>c.prepareEtcdConfig\<close>, a method declared outside this file:
  it prepares the server configuration from the process options and may fail.
\<close>

datatype call =
    ClientNew "string list"
  | ClientClose handle
  | MemberList
  | MemberAdd "string list"
  | MemberRemove "64 word"
  | LeaseGrant
  | LeaseRevoke LeaseID
  | KVGet string
  | KVPut string string LeaseID
  | Defragment string
  | SessionNew handle LeaseID
  | SessionClose handle
  | PrepareEtcdConfig
  | StartEtcd
  | EtcdClose handle
  | EtcdHardStop handle
  | TimeAfter nat

text \<open>
  The errors of this file.  It has no error types of its own: it returns what a call
  returned, or wraps it with \<^verbatim>\<open>fmt.Errorf\<close>.  One constructor stands for each message.
  The spec's names: \<open>CreateClientFailed\<close> is its ConnectionError, \<open>LeaseNotReady\<close> and
  \<open>ServerNotReady\<close> its NotReadyError, \<open>ParseFailed\<close> its CorruptStateError,
  \<open>PutLeaseFailed\<close> its PersistError, \<open>NotFound\<close> its NotFoundError.
\<close>

datatype error =
    CallFailed call
  | CreateClientFailed error
  | LeaseNotReady
  | ServerNotReady
  | ParseFailed strconv_err
  | PutLeaseFailed string error
  | CreateSessionFailed error
  | PutStatusFailed error
  | NotFound string
  | UnmarshalFailed
  | MarshalFailed

text \<open>A Go function either returns or panics.\<close>

datatype 'a outcome = Return 'a | Panic string

definition nil_dereference :: string where
  "nil_dereference = ''invalid memory address or nil pointer dereference''"

text \<open>\<^verbatim>\<open>etcdStats\<close>, \<^verbatim>\<open>EtcdStatus\<close> and \<^verbatim>\<open>MemberStatus\<close>; times are kept as their RFC3339 text.\<close>

record etcdStats =
  stats_ID :: string
  stats_State :: string
  stats_StartTime :: string

record EtcdStatus =
  status_ID :: string
  status_StartTime :: string
  status_State :: string

record MemberStatus =
  status_Options :: Options
  LastHeartbeatTime :: string
  LastDefragTime :: string
  Etcd :: "EtcdStatus option"



text \<open>
  What the world outside the process decides.  The \<open>t\<close>-th external call of a run
  (\<open>t\<close> counts from 0) fails when \<open>fails t c\<close> holds; a lease grant issued as call \<open>t\<close>
  returns the id \<open>granted t\<close>; a member added by call \<open>t\<close> gets the id
  \<open>new_member_id t\<close>; \<open>self_stats t\<close> is the server's self-statistics after
  \<^verbatim>\<open>json.Unmarshal\<close> (\<open>None\<close> when that fails), \<open>time_now t\<close> the wall clock and
  \<open>yaml_marshal\<close> the serialiser (\<open>None\<close> when it fails).
\<close>

record environment =
  fails :: "nat \<Rightarrow> call \<Rightarrow> bool"
  granted :: "nat \<Rightarrow> LeaseID"
  new_member_id :: "nat \<Rightarrow> 64 word"
  self_stats :: "nat \<Rightarrow> etcdStats option"
  time_now :: "nat \<Rightarrow> string"
  yaml_marshal :: "MemberStatus \<Rightarrow> string option"

text \<open>
  The state: the fields of \<^verbatim>\<open>struct cluster\<close> (the four mutexes leave no trace in a
  sequential run; \<open>done_closed\<close> says whether the channel \<^verbatim>\<open>c.done\<close> is closed), then the
  store (its keys with the lease each was written under, its member list), the embedded
  servers that are ready and that are stopped, the monitors spawned, the lease each
  session was built with, the environment, and the traces of external calls and of log
  lines.
\<close>

record state =
  opt :: Options
  layout :: Layout
  members :: members
  server :: "handle option"
  client :: "handle option"
  lease :: "LeaseID option"
  session :: "handle option"
  done_closed :: bool
  kv :: "string \<rightharpoonup> string \<times> LeaseID"
  etcd_members :: "pb_member list"
  ready :: "handle set"
  stopped :: "handle set"
  monitored :: "handle list"
  session_lease :: "handle \<rightharpoonup> LeaseID"
  env :: environment
  calls :: "call list"
  logs :: "string list"

text \<open>Revoking a lease deletes every key written under it.\<close>

definition revoke_keys ::
  "LeaseID \<Rightarrow> (string \<rightharpoonup> string \<times> LeaseID) \<Rightarrow> (string \<rightharpoonup> string \<times> LeaseID)" where
  "revoke_keys l m =
     (\<lambda>k. case m k of None \<Rightarrow> None | Some (v, l') \<Rightarrow> if l' = l then None else Some (v, l'))"

text \<open>
  \<open>issue c\<close> makes the external call \<open>c\<close>: it says whether the call failed and puts
  the call on the trace.  \<open>logf\<close> writes a log line (the format string stands for the
  line).
\<close>

definition issue :: "call \<Rightarrow> state \<Rightarrow> bool \<times> state" where
  "issue c s = (fails (env s) (length (calls s)) c, s\<lparr>calls := calls s @ [c]\<rparr>)"

definition logf :: "string \<Rightarrow> state \<Rightarrow> state" where
  "logf msg s = s\<lparr>logs := logs s @ [msg]\<rparr>"

text \<open>The calls and the log lines a run added to the traces.\<close>

definition issued :: "state \<Rightarrow> state \<Rightarrow> call list" where
  "issued s s' = drop (length (calls s)) (calls s')"

definition logged :: "state \<Rightarrow> state \<Rightarrow> string list" where
  "logged s s' = drop (length (logs s)) (logs s')"

subsection \<open>Connection\<close>

text \<open>
  \<^verbatim>\<open>getClient\<close> (lines 296-336).  In a sequential run the read-locked check and the
  re-check under the write lock see the same field, so they are one test.
\<close>

definition getClient :: "state \<Rightarrow> (error + handle) \<times> state" where
  "getClient s =
     (case client s of
        Some cl \<Rightarrow> (Inr cl, s)
      | None \<Rightarrow>
          let endpoints = (if ForceNewCluster (opt s) then [PeerURL (self_member (members s))]
                           else knownPeerURLs (members s));
              s1 = logf ''client connect with endpoints: %v'' s;
              h = length (calls s1);
              (failed, s2) = issue (ClientNew endpoints) s1
          in if failed then (Inl (CreateClientFailed (CallFailed (ClientNew endpoints))), s2)
             else (Inr h, (logf ''client is ready'' s2)\<lparr>client := Some h\<rparr>))"

text \<open>\<^verbatim>\<open>closeClient\<close> (lines 338-352); an error of \<^verbatim>\<open>Close\<close> is only logged.\<close>

definition closeClient :: "state \<Rightarrow> state" where
  "closeClient s =
     (case client s of
        None \<Rightarrow> s
      | Some cl \<Rightarrow>
          let (failed, s1) = issue (ClientClose cl) s;
              s2 = (if failed then logf ''close client failed: %v'' s1 else s1)
          in s2\<lparr>client := None\<rparr>)"

subsection \<open>Lease\<close>

text \<open>\<^verbatim>\<open>getLease\<close> (lines 354-361).\<close>

definition getLease :: "state \<Rightarrow> error + LeaseID" where
  "getLease s = (case lease s of None \<Rightarrow> Inl LeaseNotReady | Some l \<Rightarrow> Inr l)"

text \<open>
  Modelled from the spec: \<^verbatim>\<open>c.Get\<close>, a method of the cluster declared outside this file.
  It is the read accessor of section 6: it obtains the connection and reads one key,
  giving \<open>None\<close> for an absent key.
\<close>

definition Get :: "string \<Rightarrow> state \<Rightarrow> (error + string option) \<times> state" where
  "Get key s =
     (case getClient s of
        (Inl e, s1) \<Rightarrow> (Inl e, s1)
      | (Inr cl, s1) \<Rightarrow>
          let (failed, s2) = issue (KVGet key) s1
          in if failed then (Inl (CallFailed (KVGet key)), s2)
             else (Inr (map_option fst (kv s2 key)), s2))"

text \<open>
  Modelled from the spec: \<^verbatim>\<open>c.PutUnderLease\<close>, a method of the cluster declared outside
  this file.  It is the write-under-lease accessor of section 6.  The write "itself
  requires a lease" (section 4.1): it obtains the connection, reads the cached lease
  with \<open>getLease\<close>, and puts the key under it.
\<close>

definition PutUnderLease :: "string \<Rightarrow> string \<Rightarrow> state \<Rightarrow> error option \<times> state" where
  "PutUnderLease key v s =
     (case getClient s of
        (Inl e, s1) \<Rightarrow> (Some e, s1)
      | (Inr cl, s1) \<Rightarrow>
          (case getLease s1 of
             Inl e \<Rightarrow> (Some e, s1)
           | Inr l \<Rightarrow>
               let (failed, s2) = issue (KVPut key v l) s1
               in if failed then (Some (CallFailed (KVPut key v l)), s2)
                  else (None, s2\<lparr>kv := (kv s2)(key \<mapsto> (v, l))\<rparr>)))"

text \<open>\<^verbatim>\<open>initLease\<close> (lines 363-413).\<close>

definition initLease :: "state \<Rightarrow> error option \<times> state" where
  "initLease s =
     (case getLease s of
        Inr l \<Rightarrow> (None, s)
      | Inl e0 \<Rightarrow>
          (case Get (Lease_key (layout s)) s of
             (Inl e, s1) \<Rightarrow> (Some e, s1)
           | (Inr (Some leaseStr), s1) \<Rightarrow>
               (case strTolease leaseStr of
                  Inl e \<Rightarrow> (Some (ParseFailed e), logf ''BUG: parse lease %s failed: %v'' s1)
                | Inr l \<Rightarrow> (None, logf ''lease is ready'' (s1\<lparr>lease := Some l\<rparr>)))
           | (Inr None, s1) \<Rightarrow>
               (case getClient s1 of
                  (Inl e, s2) \<Rightarrow> (Some e, s2)
                | (Inr cl, s2) \<Rightarrow>
                    let l = granted (env s2) (length (calls s2));
                        (failed, s3) = issue LeaseGrant s2
                    in if failed then (Some (CallFailed LeaseGrant), s3)
                       else
                         let s4 = logf ''lease is ready'' (s3\<lparr>lease := Some l\<rparr>)
                         in (case PutUnderLease (Lease_key (layout s4)) (fmt_x l) s4 of
                               (Some e, s5) \<Rightarrow>
                                 (Some (PutLeaseFailed (Lease_key (layout s5)) e), s5)
                             | (None, s5) \<Rightarrow> (None, s5)))))"

subsection \<open>Session\<close>

text \<open>
  \<^verbatim>\<open>getSession\<close> (lines 415-451).  The function returns the session it built; no line
  of it assigns \<^verbatim>\<open>c.session\<close>.  The session is bound to the lease it was built with
  (\<^verbatim>\<open>concurrency.WithLease(lease)\<close>).
\<close>

definition getSession :: "state \<Rightarrow> (error + handle) \<times> state" where
  "getSession s =
     (case session s of
        Some se \<Rightarrow> (Inr se, s)
      | None \<Rightarrow>
          (case getClient s of
             (Inl e, s1) \<Rightarrow> (Inl e, s1)
           | (Inr cl, s1) \<Rightarrow>
               (case getLease s1 of
                  Inl e \<Rightarrow> (Inl e, s1)
                | Inr l \<Rightarrow>
                    let h = length (calls s1);
                        (failed, s2) = issue (SessionNew cl l) s1
                    in if failed
                       then (Inl (CreateSessionFailed (CallFailed (SessionNew cl l))), s2)
                       else (Inr h,
                             logf ''session is ready''
                               (s2\<lparr>session_lease := (session_lease s2)(h \<mapsto> l)\<rparr>)))))"

text \<open>
  \<^verbatim>\<open>closeSession\<close> (lines 453-467).  \<^verbatim>\<open>Session.Close\<close> of the library revokes the lease
  the session is bound to, so the keys written under that lease go with it; an error
  of it is only logged.
\<close>

definition closeSession :: "state \<Rightarrow> state" where
  "closeSession s =
     (case session s of
        None \<Rightarrow> s
      | Some se \<Rightarrow>
          let (failed, s1) = issue (SessionClose se) s;
              s2 = (if failed then logf ''close session failed: %v'' s1
                    else (case session_lease s1 se of
                            None \<Rightarrow> s1
                          | Some l \<Rightarrow> s1\<lparr>kv := revoke_keys l (kv s1)\<rparr>))
          in s2\<lparr>session := None\<rparr>)"

subsection \<open>Embedded server\<close>

text \<open>\<^verbatim>\<open>getServer\<close> (lines 469-476).\<close>

definition getServer :: "state \<Rightarrow> error + handle" where
  "getServer s = (case server s of None \<Rightarrow> Inl ServerNotReady | Some srv \<Rightarrow> Inr srv)"

text \<open>
  \<^verbatim>\<open>closeEtcdServer\<close> (lines 478-493): a server that reported ready is closed and
  awaited, any other is stopped hard; its listeners are closed with it.
\<close>

definition closeEtcdServer :: "handle \<Rightarrow> state \<Rightarrow> state" where
  "closeEtcdServer srv s =
     (let s1 = (if srv \<in> ready s then snd (issue (EtcdClose srv) s)
                else logf ''hard stop server'' (snd (issue (EtcdHardStop srv) s)))
      in s1\<lparr>stopped := insert srv (stopped s1)\<rparr>)"

text \<open>
  \<^verbatim>\<open>startServer\<close> (lines 495-543).  The goroutine it spawns waits for the first of three
  signals; which one comes first is the argument \<open>r\<close>, and the goroutine's effect is
  folded into the call.  The result says whether \<^verbatim>\<open>done\<close> and \<^verbatim>\<open>timeout\<close> get closed.
\<close>

datatype race = ShutdownFirst | ReadyFirst | TimeoutFirst

definition startServer :: "race \<Rightarrow> state \<Rightarrow> (error + bool \<times> bool) \<times> state" where
  "startServer r s =
     (case server s of
        Some srv \<Rightarrow> (Inr (True, False), s)
      | None \<Rightarrow>
          let (failed, s1) = issue PrepareEtcdConfig s
          in if failed then (Inl (CallFailed PrepareEtcdConfig), s1)
             else
               let h = length (calls s1);
                   (failed', s2) = issue StartEtcd s1
               in if failed' then (Inl (CallFailed StartEtcd), s2)
                  else
                    (case r of
                       ShutdownFirst \<Rightarrow> (Inr (False, False), s2)
                     | ReadyFirst \<Rightarrow>
                         (Inr (True, False),
                          logf ''server is ready''
                            (s2\<lparr>server := Some h, ready := insert h (ready s2),
                                monitored := monitored s2 @ [h]\<rparr>))
                     | TimeoutFirst \<Rightarrow> (Inr (False, True), closeEtcdServer h s2)))"

text \<open>
  \<^verbatim>\<open>monitorServer\<close> (lines 515-524), the goroutine spawned for a ready server \<open>srv\<close>: it
  waits for a server error or for the shutdown signal.  Its log line reads
  \<^verbatim>\<open>c.server.Config().Name\<close>, which dereferences the cached field.
\<close>

datatype monitor_event = ServerErr | ShutdownSeen

definition monitorServer :: "handle \<Rightarrow> monitor_event \<Rightarrow> state \<Rightarrow> unit outcome \<times> state" where
  "monitorServer srv ev s =
     (case ev of
        ShutdownSeen \<Rightarrow> (Return (), s)
      | ServerErr \<Rightarrow>
          (case server s of
             None \<Rightarrow> (Panic nil_dereference, s)
           | Some cur \<Rightarrow> (Return (), closeEtcdServer srv (logf ''%s serve faield: %v'' s))))"

text \<open>\<^verbatim>\<open>closeServer\<close> (lines 545-555).\<close>

definition closeServer :: "state \<Rightarrow> state" where
  "closeServer s =
     (case server s of
        None \<Rightarrow> s
      | Some srv \<Rightarrow> (closeEtcdServer srv s)\<lparr>server := None\<rparr>)"

subsection \<open>Join protocol\<close>

text \<open>
  The loop of \<^verbatim>\<open>addSelfToCluster\<close> (lines 256-272) over the member list: it stops at
  the first exact match, panics at the first member that shares only the name or only
  the id, and otherwise goes on.
\<close>

fun find_self :: "member \<Rightarrow> pb_member list \<Rightarrow> state \<Rightarrow> bool outcome \<times> state" where
  "find_self self [] s = (Return False, s)"
| "find_self self (m # ms) s =
     (if Name self = pb_Name m \<and> ID self = pb_ID m then (Return True, s)
      else if Name self = pb_Name m \<and> ID self \<noteq> pb_ID m
        then (Panic ''conflict etcd ids'',
              logf ''conflict id, local name: %s, local id: %d, etcd name: %s, etcd id: %d'' s)
      else if ID self = pb_ID m \<and> Name self \<noteq> pb_Name m
        then (Panic ''conflict etcd names'',
              logf ''conflict name, local name: %s, local id: %d, etcd name: %s, etcd id: %d'' s)
      else find_self self ms s)"

text \<open>
  \<^verbatim>\<open>client.MemberAdd\<close>: the store appends a member with a fresh id, no name yet and the
  given peer URLs, and answers with the new list.
\<close>

definition member_add :: "string list \<Rightarrow> state \<Rightarrow> (error + pb_member list) \<times> state" where
  "member_add urls s =
     (let t = length (calls s);
          (failed, s1) = issue (MemberAdd urls) s
      in if failed then (Inl (CallFailed (MemberAdd urls)), s1)
         else
           let ms = etcd_members s1 @
                    [\<lparr>pb_ID = new_member_id (env s1) t, pb_Name = [], pb_PeerURLs = urls\<rparr>]
           in (Inr ms, s1\<lparr>etcd_members := ms\<rparr>))"

text \<open>\<^verbatim>\<open>addSelfToCluster\<close> (lines 243-284).\<close>

definition addSelfToCluster :: "state \<Rightarrow> error option outcome \<times> state" where
  "addSelfToCluster s =
     (case getClient s of
        (Inl e, s1) \<Rightarrow> (Return (Some e), s1)
      | (Inr cl, s1) \<Rightarrow>
          let (failed, s2) = issue MemberList s1
          in if failed then (Return (Some (CallFailed MemberList)), s2)
             else
               (case find_self (self_member (members s2)) (etcd_members s2) s2 of
                  (Panic msg, s3) \<Rightarrow> (Panic msg, s3)
                | (Return True, s3) \<Rightarrow> (Return None, s3)
                | (Return False, s3) \<Rightarrow>
                    (case member_add [ClusterPeerURL (opt s3)] s3 of
                       (Inl e, s4) \<Rightarrow> (Return (Some e), s4)
                     | (Inr ms, s4) \<Rightarrow>
                         (Return None,
                          (logf ''add %s to member list'' s4)
                            \<lparr>members := updateClusterMembers ms (members s4)\<rparr>))))"

subsection \<open>Heartbeat\<close>



text \<open>
  The loops wait in a \<^verbatim>\<open>select\<close> on a timer and on \<^verbatim>\<open>c.done\<close>.  A run of a loop is
  driven by the list of the cases its successive selects take; when the list is used
  up the loop is still waiting.
\<close>

datatype selected = TimerFired | DoneReceived

datatype loop_end = Returned | Waiting | Crashed string




subsection \<open>Defragmentation\<close>

definition defragNormalInterval :: nat where
  "defragNormalInterval = 3600"

definition defragFailedInterval :: nat where
  "defragFailedInterval = 60"

text \<open>
  One pass through the timer case of \<^verbatim>\<open>defrag\<close> (lines 589-604), giving the next
  interval, or the panic.  After a failed \<^verbatim>\<open>getClient\<close> the code logs and goes on to
  line 596 with \<^verbatim>\<open>client\<close> nil; \<^verbatim>\<open>client.Defragment\<close> then reads the embedded
  \<^verbatim>\<open>Maintenance\<close> field through the nil pointer.
\<close>

definition defrag_tick :: "state \<Rightarrow> nat outcome \<times> state" where
  "defrag_tick s =
     (case getClient s of
        (Inl e, s1) \<Rightarrow>
          (Panic nil_dereference, logf ''defrag failed: get client failed: %v'' s1)
      | (Inr cl, s1) \<Rightarrow>
          let (failed, s2) = issue (Defragment (ClusterPeerURL (opt s1))) s1
          in if failed then (Return defragFailedInterval, logf ''defrag failed: %v'' s2)
             else (Return defragNormalInterval, logf ''defrag successfully'' s2))"

text \<open>
  \<^verbatim>\<open>defrag\<close> (lines 584-609); \<open>defrag_loop\<close> is the \<^verbatim>\<open>for\<close> loop with the current
  interval.
\<close>

fun defrag_loop :: "selected list \<Rightarrow> nat \<Rightarrow> state \<Rightarrow> loop_end \<times> state" where
  "defrag_loop [] defragInterval s = (Waiting, snd (issue (TimeAfter defragInterval) s))"
| "defrag_loop (TimerFired # evs) defragInterval s =
     (case defrag_tick (snd (issue (TimeAfter defragInterval) s)) of
        (Panic msg, s1) \<Rightarrow> (Crashed msg, s1)
      | (Return next_interval, s1) \<Rightarrow> defrag_loop evs next_interval s1)"
| "defrag_loop (DoneReceived # evs) defragInterval s =
     (Returned, snd (issue (TimeAfter defragInterval) s))"

definition defrag :: "selected list \<Rightarrow> state \<Rightarrow> loop_end \<times> state" where
  "defrag evs s = defrag_loop evs defragNormalInterval s"

subsection \<open>Purge and shutdown\<close>

text \<open>
  The loop of \<^verbatim>\<open>PurgeMember\<close> (lines 671-676): \<open>id\<close> ends as the id of the last member
  with the given name.
\<close>

fun find_id :: "string \<Rightarrow> pb_member list \<Rightarrow> 64 word option \<Rightarrow> 64 word option" where
  "find_id memberName [] id' = id'"
| "find_id memberName (m # ms) id' =
     find_id memberName ms (if pb_Name m = memberName then Some (pb_ID m) else id')"

text \<open>
  \<^verbatim>\<open>client.MemberRemove\<close> takes the member out of the store's list;
  \<^verbatim>\<open>client.Lease.Revoke\<close> deletes every key written under the lease.
\<close>

definition member_remove :: "64 word \<Rightarrow> state \<Rightarrow> bool \<times> state" where
  "member_remove id' s =
     (let (failed, s1) = issue (MemberRemove id') s
      in if failed then (True, s1)
         else (False, s1\<lparr>etcd_members := filter (\<lambda>m. pb_ID m \<noteq> id') (etcd_members s1)\<rparr>))"

definition lease_revoke :: "LeaseID \<Rightarrow> state \<Rightarrow> bool \<times> state" where
  "lease_revoke l s =
     (let (failed, s1) = issue (LeaseRevoke l) s
      in if failed then (True, s1)
         else (False, s1\<lparr>kv := revoke_keys l (kv s1)\<rparr>))"

text \<open>The second half of \<^verbatim>\<open>PurgeMember\<close> (lines 684-703).\<close>

definition purge_lease :: "string \<Rightarrow> state \<Rightarrow> error option \<times> state" where
  "purge_lease memberName s =
     (let leaseKey = OtherLease (layout s) memberName
      in case Get leaseKey s of
           (Inl e, s1) \<Rightarrow> (Some e, s1)
         | (Inr None, s1) \<Rightarrow> (Some (NotFound leaseKey), s1)
         | (Inr (Some leaseStr), s1) \<Rightarrow>
             (case strTolease leaseStr of
                Inl e \<Rightarrow> (Some (ParseFailed e), s1)
              | Inr l \<Rightarrow>
                  (case lease_revoke l s1 of
                     (True, s2) \<Rightarrow> (Some (CallFailed (LeaseRevoke l)), s2)
                   | (False, s2) \<Rightarrow> (None, s2))))"

text \<open>\<^verbatim>\<open>PurgeMember\<close> (lines 660-704).\<close>

definition PurgeMember :: "string \<Rightarrow> state \<Rightarrow> error option \<times> state" where
  "PurgeMember memberName s =
     (case getClient s of
        (Inl e, s1) \<Rightarrow> (Some e, s1)
      | (Inr cl, s1) \<Rightarrow>
          let (failed, s2) = issue MemberList s1
          in if failed then (Some (CallFailed MemberList), s2)
             else
               (case find_id memberName (etcd_members s2) None of
                  None \<Rightarrow> purge_lease memberName s2
                | Some id' \<Rightarrow>
                    (case member_remove id' s2 of
                       (True, s3) \<Rightarrow> (Some (CallFailed (MemberRemove id')), s3)
                     | (False, s3) \<Rightarrow> purge_lease memberName s3)))"

text \<open>
  \<^verbatim>\<open>wg.Done()\<close> on a \<^verbatim>\<open>sync.WaitGroup\<close> with counter \<open>wg\<close>: the counter goes down by
  one, and a negative counter panics.
\<close>

definition wg_Done :: "int \<Rightarrow> unit outcome \<times> int" where
  "wg_Done wg =
     (if wg - 1 < 0 then (Panic ''sync: negative WaitGroup counter'', wg - 1)
      else (Return (), wg - 1))"

text \<open>
  \<^verbatim>\<open>Close\<close> (lines 706-714).  \<^verbatim>\<open>close(c.done)\<close> panics when the channel is closed
  already.  The deferred \<^verbatim>\<open>wg.Done()\<close> runs on either way out, and a panic of its own
  is the one that goes up.
\<close>

definition Close :: "int \<Rightarrow> state \<Rightarrow> unit outcome \<times> int \<times> state" where
  "Close wg s =
     (let (body, s') =
            (if done_closed s then (Panic ''close of closed channel'', s)
             else (Return (), closeServer (closeClient (closeSession (s\<lparr>done_closed := True\<rparr>)))));
          (deferred, wg') = wg_Done wg
      in (case deferred of Panic msg \<Rightarrow> Panic msg | Return u \<Rightarrow> body, wg', s'))"

subsection \<open>Restart\<close>

text \<open>
  A restarted process starts from an empty \<^verbatim>\<open>struct cluster\<close> (nothing cached, \<^verbatim>\<open>c.done\<close>
  open); the store keeps its keys and its member list.
\<close>

definition restart :: "state \<Rightarrow> state" where
  "restart s = s\<lparr>server := None, client := None, lease := None, session := None,
                 done_closed := False\<rparr>"

section \<open>Example clusters\<close>

text \<open>An environment in which no call fails.\<close>

definition env_ok :: environment where
  "env_ok =
     \<lparr>fails = (\<lambda>t c. False),
      granted = (\<lambda>t. 1000 + of_nat t),
      new_member_id = (\<lambda>t. 500 + of_nat t),
      self_stats = (\<lambda>t. Some \<lparr>stats_ID = ''8e9e05c52164694d'', stats_State = ''StateLeader'',
                              stats_StartTime = ''2021-01-01T00:00:00Z''\<rparr>),
      time_now = (\<lambda>t. ''2021-01-01T00:00:05Z''),
      yaml_marshal = (\<lambda>st. Some ''status'')\<rparr>"

text \<open>The cluster as \<^verbatim>\<open>New\<close> leaves it, on an empty store.\<close>

definition cluster_new :: state where
  "cluster_new =
     \<lparr>opt = \<lparr>ClusterRole = ''writer'', ForceNewCluster = False,
             ClusterPeerURL = ''http://127.0.0.1:2380''\<rparr>,
      layout = \<lparr>Lease_key = ''/leases/member-1'', StatusMemberKey = ''/status/member-1'',
                OtherLease = (\<lambda>n. ''/leases/'' @ n)\<rparr>,
      members = \<lparr>self_member = \<lparr>Name = ''member-1'', ID = 1,
                                PeerURL = ''http://127.0.0.1:2380''\<rparr>,
                 known = [\<lparr>Name = ''member-1'', ID = 1, PeerURL = ''http://127.0.0.1:2380''\<rparr>],
                 cluster_view = []\<rparr>,
      server = None, client = None, lease = None, session = None, done_closed = False,
      kv = Map.empty, etcd_members = [], ready = {}, stopped = {}, monitored = [],
      session_lease = Map.empty, env = env_ok, calls = [], logs = []\<rparr>"

text \<open>The same cluster with its connection (handle 0) and its lease (id 31) cached.\<close>

definition cluster_ready :: state where
  "cluster_ready =
     cluster_new\<lparr>client := Some 0, lease := Some 31,
                 calls := [ClientNew [''http://127.0.0.1:2380'']]\<rparr>"

text \<open>A new cluster whose store cannot be reached: every \<^verbatim>\<open>clientv3.New\<close> fails.\<close>

definition cluster_unreachable :: state where
  "cluster_unreachable =
     cluster_new\<lparr>env := env_ok\<lparr>fails := (\<lambda>t c. case c of ClientNew eps \<Rightarrow> True | _ \<Rightarrow> False)\<rparr>\<rparr>"

text \<open>A new cluster on a store that refuses every put.\<close>

definition cluster_put_fails :: state where
  "cluster_put_fails =
     cluster_new\<lparr>env := env_ok\<lparr>fails := (\<lambda>t c. case c of KVPut k v l \<Rightarrow> True | _ \<Rightarrow> False)\<rparr>\<rparr>"

section \<open>Store mutations\<close>

text \<open>
  The calls that change the store: its members, its leases or its keys (closing a
  session revokes its lease).
\<close>

fun is_mutation :: "call \<Rightarrow> bool" where
  "is_mutation (MemberAdd urls) = True"
| "is_mutation (MemberRemove i) = True"
| "is_mutation LeaseGrant = True"
| "is_mutation (LeaseRevoke l) = True"
| "is_mutation (KVPut k v l) = True"
| "is_mutation (SessionClose se) = True"
| "is_mutation c = False"

section \<open>Example stores\<close>

text \<open>The store lists a member named member-2 (id 7) and holds no lease record for it.\<close>

definition cluster_listed :: state where
  "cluster_listed =
     cluster_ready\<lparr>etcd_members :=
        [\<lparr>pb_ID = 7, pb_Name = ''member-2'', pb_PeerURLs = [''http://127.0.0.1:2381'']\<rparr>]\<rparr>"

text \<open>The store holds a lease record for member-2 (lease 42) and lists no such member.\<close>

definition cluster_orphan_lease :: state where
  "cluster_orphan_lease =
     cluster_ready\<lparr>kv := [''/leases/member-2'' \<mapsto> (''2a'', 42)]\<rparr>"

text \<open>
  The store lists this node (member-1, id 1) and, after it, a second member of the same
  name with another id.
\<close>

definition cluster_twin :: state where
  "cluster_twin =
     cluster_ready\<lparr>etcd_members :=
        [\<lparr>pb_ID = 1, pb_Name = ''member-1'', pb_PeerURLs = [''http://127.0.0.1:2380'']\<rparr>,
         \<lparr>pb_ID = 2, pb_Name = ''member-1'', pb_PeerURLs = [''http://127.0.0.1:2390'']\<rparr>]\<rparr>"

text \<open>The store lists only a member with this node's name and another id.\<close>

definition cluster_conflict :: state where
  "cluster_conflict =
     cluster_ready\<lparr>etcd_members :=
        [\<lparr>pb_ID = 2, pb_Name = ''member-1'', pb_PeerURLs = [''http://127.0.0.1:2390'']\<rparr>]\<rparr>"

text \<open>
  The store lists an unrelated member first and then a member with this node's name
  and another id.
\<close>

definition cluster_conflict_second :: state where
  "cluster_conflict_second =
     cluster_ready\<lparr>etcd_members :=
        [\<lparr>pb_ID = 9, pb_Name = ''member-9'', pb_PeerURLs = [''http://127.0.0.1:2399'']\<rparr>,
         \<lparr>pb_ID = 2, pb_Name = ''member-1'', pb_PeerURLs = [''http://127.0.0.1:2390'']\<rparr>]\<rparr>"

text \<open>
  A new cluster after \<^verbatim>\<open>startServer\<close> whose server reported ready first: the server
  (handle 1) is cached and its monitor is spawned.
\<close>

definition cluster_serving :: state where
  "cluster_serving = snd (startServer ReadyFirst cluster_new)"

section \<open>The textual form of a lease id reads back as the same id\<close>

lemma digit_of_ldigits:
  assumes "d < 16"
  shows "digit_of (ldigits ! d) = Some d"
proof -
  from assms have "d = 0 \<or> d = 1 \<or> d = 2 \<or> d = 3 \<or> d = 4 \<or> d = 5 \<or> d = 6 \<or> d = 7 \<or> d = 8
      \<or> d = 9 \<or> d = 10 \<or> d = 11 \<or> d = 12 \<or> d = 13 \<or> d = 14 \<or> d = 15"
    by arith
  then show ?thesis
    by (elim disjE) (simp_all add: digit_of_def ldigits_def lower_def)
qed

lemma ldigits_not_sign:
  assumes "d < 16"
  shows "ldigits ! d \<noteq> CHR ''-'' \<and> ldigits ! d \<noteq> CHR ''+''"
proof -
  from assms have "d = 0 \<or> d = 1 \<or> d = 2 \<or> d = 3 \<or> d = 4 \<or> d = 5 \<or> d = 6 \<or> d = 7 \<or> d = 8
      \<or> d = 9 \<or> d = 10 \<or> d = 11 \<or> d = 12 \<or> d = 13 \<or> d = 14 \<or> d = 15"
    by arith
  then show ?thesis
    by (elim disjE) (simp_all add: ldigits_def)
qed

lemma fmt_hex_loop_buf: "fmt_hex_loop u buf = fmt_hex_loop u [] @ buf"
proof (induction u arbitrary: buf rule: less_induct)
  case (less u)
  show ?case
  proof (cases "u \<ge> 16")
    case True
    then have lt: "u div 16 < u" by simp
    have a: "fmt_hex_loop u b = fmt_hex_loop (u div 16) (ldigits ! (u mod 16) # b)" for b
      using True by (subst fmt_hex_loop.simps) simp
    have "fmt_hex_loop u buf = fmt_hex_loop (u div 16) [] @ (ldigits ! (u mod 16) # buf)"
      unfolding a by (rule less.IH [OF lt])
    moreover have "fmt_hex_loop u [] = fmt_hex_loop (u div 16) [] @ [ldigits ! (u mod 16)]"
      unfolding a by (rule less.IH [OF lt])
    ultimately show ?thesis by simp
  next
    case False
    then show ?thesis by (subst (1 2) fmt_hex_loop.simps) simp
  qed
qed

lemma fmt_hex_loop_step:
  "16 \<le> u \<Longrightarrow> fmt_hex_loop u [] = fmt_hex_loop (u div 16) [] @ [ldigits ! (u mod 16)]"
  by (subst fmt_hex_loop.simps, subst fmt_hex_loop_buf) simp

lemma fmt_hex_loop_small: "u < 16 \<Longrightarrow> fmt_hex_loop u [] = [ldigits ! u]"
  by (subst fmt_hex_loop.simps) simp

lemma fmt_hex_loop_hd:
  "fmt_hex_loop u [] \<noteq> [] \<and> hd (fmt_hex_loop u []) \<noteq> CHR ''-''
     \<and> hd (fmt_hex_loop u []) \<noteq> CHR ''+''"
proof (induction u rule: less_induct)
  case (less u)
  show ?case
  proof (cases "u \<ge> 16")
    case True
    then have lt: "u div 16 < u" by simp
    show ?thesis using less.IH [OF lt] fmt_hex_loop_step [OF True] by simp
  next
    case False
    then have "u < 16" by simp
    then show ?thesis using ldigits_not_sign [of u] by (simp add: fmt_hex_loop_small)
  qed
qed

lemma ParseUint_loop_append:
  "ParseUint_loop n xs = (m, None) \<Longrightarrow> ParseUint_loop n (xs @ ys) = ParseUint_loop m ys"
  by (induction xs arbitrary: n) (auto split: option.splits if_splits simp: Let_def)

lemma ParseUint_loop_digit:
  assumes "n < 2 ^ 60" "d < 16"
  shows "ParseUint_loop n [ldigits ! d] = (n * 16 + d, None)"
proof -
  have "n * 16 + d < 2 ^ 64" using assms by simp
  then show ?thesis
    using assms by (simp add: digit_of_ldigits cutoff16_def maxVal_def Let_def)
qed

lemma ParseUint_loop_fmt:
  "u < 2 ^ 64 \<Longrightarrow> ParseUint_loop 0 (fmt_hex_loop u []) = (u, None)"
proof (induction u rule: less_induct)
  case (less u)
  show ?case
  proof (cases "u \<ge> 16")
    case True
    then have lt: "u div 16 < u" by simp
    have b: "u div 16 < 2 ^ 60" using less.prems by simp
    then have "u div 16 < 2 ^ 64" by simp
    then have "ParseUint_loop 0 (fmt_hex_loop (u div 16) []) = (u div 16, None)"
      using less.IH [OF lt] by simp
    then have "ParseUint_loop 0 (fmt_hex_loop u [])
        = ParseUint_loop (u div 16) [ldigits ! (u mod 16)]"
      unfolding fmt_hex_loop_step [OF True] by (rule ParseUint_loop_append)
    also have "\<dots> = (u div 16 * 16 + u mod 16, None)"
      by (rule ParseUint_loop_digit [OF b]) simp
    finally show ?thesis by simp
  next
    case False
    then have "u < 16" by simp
    then show ?thesis
      using ParseUint_loop_digit [of 0 u] by (simp add: fmt_hex_loop_small)
  qed
qed

lemma ParseUint_fmt: "u < 2 ^ 64 \<Longrightarrow> ParseUint (fmt_hex_loop u []) = (u, None)"
  using fmt_hex_loop_hd [of u] by (simp add: ParseUint_def ParseUint_loop_fmt)

lemma sint64_cases:
  "sint (l :: 64 word) = (if uint l < 2 ^ 63 then uint l else uint l - 2 ^ 64)"
proof -
  have r: "0 \<le> uint l" "uint l < 2 ^ 64"
    using uint_lt2p [of l] by simp_all
  have "sint l = (uint l + 2 ^ 63) mod 2 ^ 64 - 2 ^ 63"
    by (simp add: sint_uint signed_take_bit_eq_take_bit_shift take_bit_eq_mod)
  moreover have "(uint l + 2 ^ 63) mod 2 ^ 64 = uint l + 2 ^ 63" if "uint l < 2 ^ 63"
    using that r by (intro mod_pos_pos_trivial) simp_all
  moreover have "(uint l + 2 ^ 63) mod 2 ^ 64 = uint l + 2 ^ 63 - 2 ^ 64"
    if "\<not> uint l < 2 ^ 63"
  proof -
    have "(uint l + 2 ^ 63) mod 2 ^ 64 = (uint l + 2 ^ 63 - 2 ^ 64) mod 2 ^ 64"
      by (metis minus_mod_self2)
    also have "\<dots> = uint l + 2 ^ 63 - 2 ^ 64"
      using that r by (intro mod_pos_pos_trivial) simp_all
    finally show ?thesis .
  qed
  ultimately show ?thesis by simp
qed

lemma nonneg_bound: "\<not> sint (l :: 64 word) < 0 \<Longrightarrow> unat l < 2 ^ 63"
proof -
  assume a: "\<not> sint l < 0"
  have "uint l < 2 ^ 64" using uint_lt2p [of l] by simp
  with a have "uint l < 2 ^ 63" by (simp add: sint64_cases split: if_splits)
  then show ?thesis by (simp add: unat_eq_nat_uint del: nat_uint_eq)
qed

lemma neg_bound: "sint (l :: 64 word) < 0 \<Longrightarrow> unat (- l) \<le> 2 ^ 63"
proof -
  assume a: "sint l < 0"
  have r: "0 \<le> uint l" "uint l < 2 ^ 64" using uint_lt2p [of l] by simp_all
  with a have g: "2 ^ 63 \<le> uint l" by (simp add: sint64_cases split: if_splits)
  have "uint (- l) = (- uint l) mod 2 ^ 64"
    by (simp add: uint_word_ariths)
  also have "\<dots> = (2 ^ 64 - uint l) mod 2 ^ 64"
    by (metis mod_add_self2 uminus_add_conv_diff)
  also have "\<dots> = 2 ^ 64 - uint l"
    using g r by (intro mod_pos_pos_trivial) simp_all
  finally have "uint (- l) \<le> 2 ^ 63" using g by simp
  then show ?thesis by (simp add: unat_eq_nat_uint del: nat_uint_eq)
qed

lemma ParseInt_neg:
  assumes "ParseUint s = (u, None)" "u \<le> 2 ^ 63"
  shows "ParseInt (CHR ''-'' # s) = (- word_of_nat u, None)"
  using assms by (simp add: ParseInt_def)

lemma ParseInt_pos:
  assumes "ParseUint s = (u, None)" "u < 2 ^ 63" "s \<noteq> []"
    "hd s \<noteq> CHR ''-''" "hd s \<noteq> CHR ''+''"
  shows "ParseInt s = (word_of_nat u, None)"
  using assms by (simp add: ParseInt_def)

lemma ParseInt_fmt_x: "ParseInt (fmt_x l) = (l, None)"
proof (cases "sint l < 0")
  case True
  define u where "u = unat (- l)"
  have u: "u \<le> 2 ^ 63" unfolding u_def by (rule neg_bound [OF True])
  then have "u < 2 ^ 64" by simp
  then have p: "ParseUint (fmt_hex_loop u []) = (u, None)" by (rule ParseUint_fmt)
  have f: "fmt_x l = CHR ''-'' # fmt_hex_loop u []"
    using True by (simp add: fmt_x_def u_def)
  have "- word_of_nat u = l" by (simp add: u_def)
  then show ?thesis
    unfolding f using ParseInt_neg [OF p u] by simp
next
  case False
  define u where "u = unat l"
  have u: "u < 2 ^ 63" unfolding u_def by (rule nonneg_bound [OF False])
  then have "u < 2 ^ 64" by simp
  then have p: "ParseUint (fmt_hex_loop u []) = (u, None)" by (rule ParseUint_fmt)
  have f: "fmt_x l = fmt_hex_loop u []"
    using False by (simp add: fmt_x_def u_def)
  have "word_of_nat u = l" by (simp add: u_def)
  then show ?thesis
    unfolding f using ParseInt_pos [OF p u] fmt_hex_loop_hd [of u] by simp
qed

text \<open>
  Parsing undoes formatting, for every 64-bit id.  The other way round holds only on
  the strings that formatting produces: parsing also accepts capital digits and a plus
  sign.
\<close>

lemma strTolease_fmt_x: "strTolease (fmt_x l) = Inr l"
  by (simp add: strTolease_def ParseInt_fmt_x)

lemma strTolease_not_injective:
  "strTolease ''FF'' = Inr 255 \<and> strTolease ''ff'' = Inr 255 \<and> fmt_x 255 = ''ff''"
  by (simp add: strTolease_def ParseInt_def ParseUint_def digit_of_def lower_def
      cutoff16_def maxVal_def fmt_x_def fmt_hex_loop.simps ldigits_def)

section \<open>Frame properties of the accessors\<close>

lemma issued_self [simp]: "issued s s = []"
  by (simp add: issued_def)

lemma logged_self [simp]: "logged s s = []"
  by (simp add: logged_def)

lemma issued_trans:
  assumes "calls s1 = calls s @ issued s s1" "calls s2 = calls s1 @ issued s1 s2"
  shows "issued s s2 = issued s s1 @ issued s1 s2"
proof -
  have "calls s2 = calls s @ (issued s s1 @ issued s1 s2)"
    using assms by simp
  then show ?thesis
    unfolding issued_def [of s s2] by simp
qed

lemma calls_trans:
  assumes "calls s1 = calls s @ issued s s1" "calls s2 = calls s1 @ issued s1 s2"
  shows "calls s2 = calls s @ issued s s2"
  using assms issued_trans [OF assms] by simp



lemma getClient_session [simp]: "session (snd (getClient s)) = session s"
  by (simp add: getClient_def issue_def logf_def Let_def split: option.splits)

lemma getClient_cached: "client s = Some cl \<Longrightarrow> getClient s = (Inr cl, s)"
  by (simp add: getClient_def)

lemma getClient_the: "client s \<noteq> None \<Longrightarrow> getClient s = (Inr (the (client s)), s)"
  by (auto simp add: getClient_def)

lemma getClient_frame [simp]:
  "lease (snd (getClient s)) = lease s"
  "server (snd (getClient s)) = server s"
  "kv (snd (getClient s)) = kv s"
  "etcd_members (snd (getClient s)) = etcd_members s"
  "env (snd (getClient s)) = env s"
  "layout (snd (getClient s)) = layout s"
  "opt (snd (getClient s)) = opt s"
  "members (snd (getClient s)) = members s"
  "done_closed (snd (getClient s)) = done_closed s"
  "ready (snd (getClient s)) = ready s"
  "stopped (snd (getClient s)) = stopped s"
  "monitored (snd (getClient s)) = monitored s"
  by (simp_all add: getClient_def issue_def logf_def Let_def split: option.splits)

lemma getClient_Inr: "fst (getClient s) = Inr cl \<Longrightarrow> client (snd (getClient s)) = Some cl"
  by (simp add: getClient_def issue_def logf_def Let_def split: option.splits if_splits)

lemma getClient_nofail:
  "\<forall>t c. \<not> fails (env s) t c \<Longrightarrow> \<exists>cl. fst (getClient s) = Inr cl"
  by (simp add: getClient_def issue_def logf_def Let_def split: option.splits)

lemma getClient_calls: "calls (snd (getClient s)) = calls s @ issued s (snd (getClient s))"
  by (simp add: getClient_def issue_def logf_def issued_def Let_def split: option.splits)


lemma getClient_no_mutation: "filter is_mutation (issued s (snd (getClient s))) = []"
  by (simp add: getClient_def issue_def logf_def issued_def Let_def split: option.splits)

lemma Get_frame [simp]:
  "lease (snd (Get key s)) = lease s" "layout (snd (Get key s)) = layout s"
  "env (snd (Get key s)) = env s"  "kv (snd (Get key s)) = kv s"
  by (simp_all add: Get_def getClient_def issue_def logf_def Let_def split_beta split: option.splits)

lemma Get_client: "fst (Get key s) = Inr r \<Longrightarrow> client (snd (Get key s)) \<noteq> None"
  by (simp add: Get_def getClient_def issue_def logf_def Let_def split_beta split: option.splits if_splits)

lemma Get_nofail:
  "\<forall>t c. \<not> fails (env s) t c \<Longrightarrow> fst (Get k s) = Inr (map_option fst (kv s k))"
  by (simp add: Get_def getClient_def issue_def logf_def Let_def split_beta split: option.splits)

lemma PutUnderLease_cached:
  assumes "client s = Some cl" "lease s = Some l"
  shows "PutUnderLease k v s =
     (if fails (env s) (length (calls s)) (KVPut k v l)
      then (Some (CallFailed (KVPut k v l)), s\<lparr>calls := calls s @ [KVPut k v l]\<rparr>)
      else (None, s\<lparr>calls := calls s @ [KVPut k v l], kv := (kv s)(k \<mapsto> (v, l))\<rparr>))"
  using assms by (simp add: PutUnderLease_def getClient_cached getLease_def issue_def)

lemma PutUnderLease_no_lease:
  assumes "client s = Some cl" "lease s = None"
  shows "PutUnderLease k v s = (Some LeaseNotReady, s)"
  using assms by (simp add: PutUnderLease_def getClient_cached getLease_def)


section \<open>Session caching\<close>

lemma getSession_session: "session (snd (getSession s)) = session s"
  by (simp add: getSession_def getLease_def issue_def logf_def Let_def split_beta
      split: option.splits sum.splits)

text \<open>
  C1.  The claim: a successful \<^verbatim>\<open>getSession\<close> caches the session it built, so that a
  later call with no \<^verbatim>\<open>closeSession\<close> in between returns the same instance and builds
  nothing.  The code does not: no line of \<^verbatim>\<open>getSession\<close> assigns \<^verbatim>\<open>c.session\<close> (lemma
  \<open>getSession_session\<close>: the field is the same after every call).  On the cluster with
  connection and lease cached, two successive calls both succeed, return two different
  sessions, issue two constructions, and leave the field empty.
\<close>

theorem getSession_twice_builds_twice:
  "fst (getSession cluster_ready) = Inr 1 \<and>
   fst (getSession (snd (getSession cluster_ready))) = Inr 2 \<and>
   session (snd (getSession (snd (getSession cluster_ready)))) = None \<and>
   issued cluster_ready (snd (getSession (snd (getSession cluster_ready))))
     = [SessionNew 0 31, SessionNew 0 31]"
  by (simp add: getSession_def getClient_def getLease_def issue_def logf_def issued_def
        cluster_ready_def cluster_new_def env_ok_def)

section \<open>Defragmentation without a connection\<close>

lemma defrag_tick_no_client:
  "fst (getClient s) = Inl e \<Longrightarrow> fst (defrag_tick s) = Panic nil_dereference"
  by (simp add: defrag_tick_def split_beta split: sum.splits)

text \<open>
  C2.  The claim: a tick in which the connection cannot be obtained issues no
  defragmentation, does nothing on the absent client, sets the interval to one minute
  and retries after it.  The code does not: after the failed \<^verbatim>\<open>getClient\<close> it does
  not \<^verbatim>\<open>continue\<close>, and \<^verbatim>\<open>client.Defragment\<close> on the nil client panics (lemma
  \<open>defrag_tick_no_client\<close>).  On the cluster whose store is unreachable the first tick
  ends the loop with that panic.
\<close>

theorem defrag_crashes_without_connection:
  "fst (defrag [TimerFired] cluster_unreachable) = Crashed nil_dereference"
  by (simp add: defrag_def defrag_tick_def getClient_def issue_def logf_def Let_def
        cluster_unreachable_def cluster_new_def env_ok_def knownPeerURLs_def)

section \<open>Purging a name that has no lease record\<close>

lemma find_id_Some: "find_id name ms (Some a) \<noteq> None"
  by (induction ms arbitrary: a) simp_all

lemma find_id_None_iff:
  "find_id name ms None = None \<longleftrightarrow> name \<notin> pb_Name ` set ms"
  by (induction ms) (simp_all add: find_id_Some)

lemma PurgeMember_getClient:
  assumes "fst (getClient s) = Inr cl"
  shows "PurgeMember name s = PurgeMember name (snd (getClient s))"
proof -
  have c: "client (snd (getClient s)) \<noteq> None"
    using getClient_Inr [OF assms] by simp
  have g: "getClient s = (Inr cl, snd (getClient s))"
    using assms by (simp add: prod_eq_iff)
  show ?thesis
    unfolding PurgeMember_def [of name s] PurgeMember_def [of name "snd (getClient s)"]
    unfolding getClient_the [OF c]
    by (subst g) simp
qed

text \<open>
  C3.  The claim: for every name whose lease key is absent, \<^verbatim>\<open>PurgeMember\<close> fails with
  NotFoundError and performs no store mutation.  On the store that lists member-2 and
  has no lease record for it, \<^verbatim>\<open>PurgeMember\<close> does answer "not found", but it has removed
  the member from the store's member list before it read the lease key.
\<close>

theorem purge_unknown_name_counterexample:
  "kv cluster_listed (OtherLease (layout cluster_listed) ''member-2'') = None
   \<and> fst (PurgeMember ''member-2'' cluster_listed) = Some (NotFound ''/leases/member-2'')
   \<and> issued cluster_listed (snd (PurgeMember ''member-2'' cluster_listed))
        = [MemberList, MemberRemove 7, KVGet ''/leases/member-2'']
   \<and> etcd_members cluster_listed \<noteq> etcd_members (snd (PurgeMember ''member-2'' cluster_listed))"
  by (simp add: PurgeMember_def purge_lease_def member_remove_def Get_def getClient_def
      issue_def logf_def issued_def Let_def
      cluster_listed_def cluster_ready_def cluster_new_def env_ok_def)

lemma purge_cached_no_record:
  assumes "client s \<noteq> None"
    and "kv s (OtherLease (layout s) name) = None"
    and "\<forall>t c. \<not> fails (env s) t c"
  defines "s' \<equiv> snd (PurgeMember name s)"
  shows "fst (PurgeMember name s) = Some (NotFound (OtherLease (layout s) name))
       \<and> kv s' = kv s
       \<and> calls s' = calls s @ issued s s'
       \<and> filter is_mutation (issued s s')
           = (case find_id name (etcd_members s) None of
                None \<Rightarrow> [] | Some i \<Rightarrow> [MemberRemove i])
       \<and> etcd_members s'
           = (case find_id name (etcd_members s) None of
                None \<Rightarrow> etcd_members s
              | Some i \<Rightarrow> filter (\<lambda>m. pb_ID m \<noteq> i) (etcd_members s))"
  using assms(1,2,3) unfolding s'_def
  by (simp add: PurgeMember_def purge_lease_def member_remove_def
      Get_def getClient_the issue_def issued_def Let_def split: option.splits)

text \<open>
  C3, as the code has it.  For a name whose lease key is absent, when every call
  succeeds, \<^verbatim>\<open>PurgeMember\<close> answers that the lease key is not found, issues no lease
  revocation and leaves the keys as they were.  The member-remove comes before the read
  of the lease key: it is issued exactly when the member list has a member of that name
  (the last such member is the one removed), so the store is left unmutated only for a
  name the member list does not have.
\<close>

theorem purge_absent_lease:
  assumes "kv s (OtherLease (layout s) name) = None"
    and "\<forall>t c. \<not> fails (env s) t c"
  defines "s' \<equiv> snd (PurgeMember name s)"
  shows "fst (PurgeMember name s) = Some (NotFound (OtherLease (layout s) name))
       \<and> kv s' = kv s
       \<and> filter is_mutation (issued s s')
           = (case find_id name (etcd_members s) None of
                None \<Rightarrow> [] | Some i \<Rightarrow> [MemberRemove i])
       \<and> etcd_members s'
           = (case find_id name (etcd_members s) None of
                None \<Rightarrow> etcd_members s
              | Some i \<Rightarrow> filter (\<lambda>m. pb_ID m \<noteq> i) (etcd_members s))
       \<and> (find_id name (etcd_members s) None = None
            \<longleftrightarrow> name \<notin> pb_Name ` set (etcd_members s))"
proof -
  define s1 where "s1 = snd (getClient s)"
  obtain cl where cl: "fst (getClient s) = Inr cl"
    using getClient_nofail [OF assms(2)] by blast
  have p: "PurgeMember name s = PurgeMember name s1"
    unfolding s1_def by (rule PurgeMember_getClient [OF cl])
  have 1: "client s1 \<noteq> None"
    using getClient_Inr [OF cl] by (simp add: s1_def)
  have 2: "kv s1 (OtherLease (layout s1) name) = None"
    using assms(1) by (simp add: s1_def)
  have 3: "\<forall>t c. \<not> fails (env s1) t c"
    using assms(2) by (simp add: s1_def)
  have e: "etcd_members s1 = etcd_members s" "kv s1 = kv s" "layout s1 = layout s"
    by (simp_all add: s1_def)
  note c = purge_cached_no_record [OF 1 2 3, folded p, folded s'_def, unfolded e]
  have g: "calls s1 = calls s @ issued s s1"
    unfolding s1_def by (rule getClient_calls)
  have i: "issued s s' = issued s s1 @ issued s1 s'"
    using g c by (intro issued_trans) simp_all
  have m: "filter is_mutation (issued s s1) = []"
    unfolding s1_def by (rule getClient_no_mutation)
  show ?thesis
    using c m by (simp add: i find_id_None_iff)
qed

theorem purge_absent_lease_witness:
  "kv cluster_listed (OtherLease (layout cluster_listed) ''member-2'') = None
   \<and> (\<forall>t c. \<not> fails (env cluster_listed) t c)
   \<and> fst (PurgeMember ''member-2'' cluster_listed) = Some (NotFound ''/leases/member-2'')
   \<and> filter is_mutation (issued cluster_listed (snd (PurgeMember ''member-2'' cluster_listed)))
        = [MemberRemove 7]
   \<and> kv (snd (PurgeMember ''member-2'' cluster_listed)) = kv cluster_listed"
proof -
  have h: "kv cluster_listed (OtherLease (layout cluster_listed) ''member-2'') = None"
    "\<forall>t c. \<not> fails (env cluster_listed) t c"
    by (simp_all add: cluster_listed_def cluster_ready_def cluster_new_def env_ok_def)
  have v: "OtherLease (layout cluster_listed) ''member-2'' = ''/leases/member-2''"
    "find_id ''member-2'' (etcd_members cluster_listed) None = Some 7"
    by (simp_all add: cluster_listed_def cluster_ready_def cluster_new_def)
  from purge_absent_lease [OF h] h show ?thesis
    by (simp add: v)
qed

section \<open>Identity conflicts in the join protocol\<close>

lemma find_self_conflict:
  assumes "\<forall>p \<in> set pre. \<not> (Name self = pb_Name p \<and> ID self = pb_ID p)"
    and "(Name self = pb_Name m \<and> ID self \<noteq> pb_ID m)
         \<or> (ID self = pb_ID m \<and> Name self \<noteq> pb_Name m)"
  shows "\<exists>msg lg.
           (msg, lg) \<in> {(''conflict etcd ids'', ''conflict id, local name: %s, local id: %d, etcd name: %s, etcd id: %d''), (''conflict etcd names'', ''conflict name, local name: %s, local id: %d, etcd name: %s, etcd id: %d'')}
           \<and> find_self self (pre @ m # post) s = (Panic msg, logf lg s)"
  using assms
proof (induction pre)
  case Nil
  then show ?case by auto
next
  case (Cons p pre)
  then show ?case by auto
qed

text \<open>
  C4.  The claim: whenever some member has this node's name with another id, or its id
  with another name, the join protocol returns a typed error to its caller and issues
  no member-add.  Two runs say otherwise.  On the store that lists this node first and a
  same-named member with another id after it, the scan stops at the exact match and
  \<^verbatim>\<open>addSelfToCluster\<close> returns nil: no error at all.  On the store that lists only the
  conflicting member, \<^verbatim>\<open>addSelfToCluster\<close> does not return: it panics.
\<close>

theorem identity_conflict_counterexample:
  "pb_Name (etcd_members cluster_twin ! 1) = Name (self_member (members cluster_twin))
   \<and> pb_ID (etcd_members cluster_twin ! 1) \<noteq> ID (self_member (members cluster_twin))
   \<and> fst (addSelfToCluster cluster_twin) = Return None
   \<and> pb_Name (etcd_members cluster_conflict ! 0) = Name (self_member (members cluster_conflict))
   \<and> pb_ID (etcd_members cluster_conflict ! 0) \<noteq> ID (self_member (members cluster_conflict))
   \<and> fst (addSelfToCluster cluster_conflict) = Panic ''conflict etcd ids''"
  by (simp add: addSelfToCluster_def getClient_def issue_def logf_def
      cluster_twin_def cluster_conflict_def cluster_ready_def cluster_new_def env_ok_def)

text \<open>
  C4, as the code has it.  When the connection is there and the member list is read,
  and the list has a member that shares only the name or only the id with this node,
  with no member matching both before it, \<^verbatim>\<open>addSelfToCluster\<close> writes one log line
  for the conflict and panics with the message that goes with it (a conflict of ids or
  a conflict of names); it does not return.  The only call it issued after
  the connection is the member list (no member-add), and the store's member list is as
  it was.
\<close>

theorem identity_conflict_panics:
  assumes "fst (getClient s) = Inr cl"
    and "\<not> fails (env s) (length (calls (snd (getClient s)))) MemberList"
    and "etcd_members s = pre @ m # post"
    and "\<forall>p \<in> set pre. \<not> (Name (self_member (members s)) = pb_Name p
                            \<and> ID (self_member (members s)) = pb_ID p)"
    and "(Name (self_member (members s)) = pb_Name m \<and> ID (self_member (members s)) \<noteq> pb_ID m)
         \<or> (ID (self_member (members s)) = pb_ID m \<and> Name (self_member (members s)) \<noteq> pb_Name m)"
  shows "(fst (addSelfToCluster s), logged (snd (getClient s)) (snd (addSelfToCluster s)))
           \<in> {(Panic ''conflict etcd ids'', [''conflict id, local name: %s, local id: %d, etcd name: %s, etcd id: %d'']),
               (Panic ''conflict etcd names'', [''conflict name, local name: %s, local id: %d, etcd name: %s, etcd id: %d''])}
       \<and> issued (snd (getClient s)) (snd (addSelfToCluster s)) = [MemberList]
       \<and> etcd_members (snd (addSelfToCluster s)) = etcd_members s"
proof -
  define s1 where "s1 = snd (getClient s)"
  define s2 where "s2 = s1\<lparr>calls := calls s1 @ [MemberList]\<rparr>"
  have g: "getClient s = (Inr cl, s1)"
    using assms(1) by (simp add: s1_def prod_eq_iff)
  have e: "env s1 = env s" "members s1 = members s" "etcd_members s1 = etcd_members s"
    by (simp_all add: s1_def)
  have i: "issue MemberList s1 = (False, s2)"
    using assms(2) by (simp add: issue_def s2_def e s1_def [symmetric])
  have m2: "self_member (members s2) = self_member (members s)"
    "etcd_members s2 = pre @ m # post"
    using assms(3) by (simp_all add: s2_def e)
  from find_self_conflict [OF assms(4,5), of post s2]
  obtain msg lg where
    ml: "(msg, lg) \<in> {(''conflict etcd ids'', ''conflict id, local name: %s, local id: %d, etcd name: %s, etcd id: %d''), (''conflict etcd names'', ''conflict name, local name: %s, local id: %d, etcd name: %s, etcd id: %d'')}"
    and r: "find_self (self_member (members s)) (pre @ m # post) s2 = (Panic msg, logf lg s2)"
    by blast
  have a: "addSelfToCluster s = (Panic msg, logf lg s2)"
    by (simp add: addSelfToCluster_def g i m2 r)
  have l: "logged s1 (logf lg s2) = [lg]" "issued s1 (logf lg s2) = [MemberList]"
    "etcd_members (logf lg s2) = etcd_members s"
    by (simp_all add: logged_def issued_def logf_def s2_def e)
  show ?thesis
    unfolding s1_def [symmetric] a using ml l by auto
qed

theorem identity_conflict_panics_witness:
  "fst (getClient cluster_conflict_second) = Inr 0
   \<and> etcd_members cluster_conflict_second
       = [\<lparr>pb_ID = 9, pb_Name = ''member-9'', pb_PeerURLs = [''http://127.0.0.1:2399'']\<rparr>]
         @ \<lparr>pb_ID = 2, pb_Name = ''member-1'', pb_PeerURLs = [''http://127.0.0.1:2390'']\<rparr> # []
   \<and> fst (addSelfToCluster cluster_conflict_second) = Panic ''conflict etcd ids''
   \<and> logged cluster_conflict_second (snd (addSelfToCluster cluster_conflict_second))
        = [''conflict id, local name: %s, local id: %d, etcd name: %s, etcd id: %d'']
   \<and> issued cluster_conflict_second (snd (addSelfToCluster cluster_conflict_second))
        = [MemberList]"
proof -
  let ?p = "\<lparr>pb_ID = 9, pb_Name = ''member-9'', pb_PeerURLs = [''http://127.0.0.1:2399'']\<rparr>"
  let ?m = "\<lparr>pb_ID = 2, pb_Name = ''member-1'', pb_PeerURLs = [''http://127.0.0.1:2390'']\<rparr>"
  have g: "getClient cluster_conflict_second = (Inr 0, cluster_conflict_second)"
    by (simp add: getClient_def cluster_conflict_second_def cluster_ready_def)
  have h: "fst (getClient cluster_conflict_second) = Inr 0"
    "\<not> fails (env cluster_conflict_second)
        (length (calls (snd (getClient cluster_conflict_second)))) MemberList"
    "etcd_members cluster_conflict_second = [?p] @ ?m # []"
    "\<forall>p \<in> set [?p]. \<not> (Name (self_member (members cluster_conflict_second)) = pb_Name p
                            \<and> ID (self_member (members cluster_conflict_second)) = pb_ID p)"
    "(Name (self_member (members cluster_conflict_second)) = pb_Name ?m
        \<and> ID (self_member (members cluster_conflict_second)) \<noteq> pb_ID ?m)
     \<or> (ID (self_member (members cluster_conflict_second)) = pb_ID ?m
        \<and> Name (self_member (members cluster_conflict_second)) \<noteq> pb_Name ?m)"
    unfolding g
    by (simp_all add: cluster_conflict_second_def cluster_ready_def cluster_new_def env_ok_def)
  have n: "Panic ''conflict etcd ids'' \<noteq> (Panic ''conflict etcd names'' :: error option outcome)"
    by simp
  have v: "fst (addSelfToCluster cluster_conflict_second) = Panic ''conflict etcd ids''"
    by (simp add: addSelfToCluster_def getClient_def issue_def logf_def
        cluster_conflict_second_def cluster_ready_def cluster_new_def env_ok_def)
  from identity_conflict_panics [OF h] h(1,3) v show ?thesis
    unfolding g by auto
qed

section \<open>Shutdown\<close>

lemma closeSession_calls:
  "issued s (closeSession s) = (case session s of None \<Rightarrow> [] | Some se \<Rightarrow> [SessionClose se])"
  "calls (closeSession s) = calls s @ issued s (closeSession s)"
  "session (closeSession s) = None" "client (closeSession s) = client s"
  "server (closeSession s) = server s" "ready (closeSession s) = ready s"
  "done_closed (closeSession s) = done_closed s"
  by (simp_all add: closeSession_def issue_def logf_def issued_def split: option.splits)

lemma closeClient_calls:
  "issued s (closeClient s) = (case client s of None \<Rightarrow> [] | Some cl \<Rightarrow> [ClientClose cl])"
  "calls (closeClient s) = calls s @ issued s (closeClient s)"
  "client (closeClient s) = None" "session (closeClient s) = session s"
  "server (closeClient s) = server s" "ready (closeClient s) = ready s"
  "done_closed (closeClient s) = done_closed s"
  by (simp_all add: closeClient_def issue_def logf_def issued_def split: option.splits)

lemma closeServer_calls:
  "issued s (closeServer s)
     = (case server s of
          None \<Rightarrow> []
        | Some srv \<Rightarrow> [if srv \<in> ready s then EtcdClose srv else EtcdHardStop srv])"
  "calls (closeServer s) = calls s @ issued s (closeServer s)"
  "server (closeServer s) = None" "session (closeServer s) = session s"
  "client (closeServer s) = client s"
  "done_closed (closeServer s) = done_closed s"
  by (simp_all add: closeServer_def closeEtcdServer_def issue_def logf_def issued_def
      split: option.splits)

text \<open>
  C5.  The claim: a second \<^verbatim>\<open>Close\<close> is safe and does not crash, and each of the three
  closes is safe on a resource that was never created.  On a new cluster the first
  \<^verbatim>\<open>Close\<close> returns and the second one panics: \<^verbatim>\<open>close(c.done)\<close> on the closed channel.
\<close>

theorem close_twice_counterexample:
  "fst (Close 1 cluster_new) = Return ()
   \<and> fst (Close 1 (snd (snd (Close 1 cluster_new)))) = Panic ''close of closed channel''"
  by (simp add: Close_def wg_Done_def closeSession_def closeClient_def closeServer_def
      cluster_new_def)

text \<open>
  C5, as the code has it.  \<^verbatim>\<open>Close\<close> on a cluster whose \<^verbatim>\<open>c.done\<close> is open (and a wait
  group that expects it) returns; it closes the channel and then closes the session,
  the connection and the server, in that order, issuing a close only for a resource
  that is cached, and leaves all three fields empty.  Each of the three closes leaves a
  cluster without its resource as it is.  Every later \<^verbatim>\<open>Close\<close> panics.
\<close>

theorem close_once:
  assumes "\<not> done_closed s" and "0 < wg"
  defines "s' \<equiv> snd (snd (Close wg s))"
  shows "fst (Close wg s) = Return ()
       \<and> done_closed s' \<and> session s' = None \<and> client s' = None \<and> server s' = None
       \<and> issued s s'
           = (case session s of None \<Rightarrow> [] | Some se \<Rightarrow> [SessionClose se])
             @ (case client s of None \<Rightarrow> [] | Some cl \<Rightarrow> [ClientClose cl])
             @ (case server s of
                  None \<Rightarrow> []
                | Some srv \<Rightarrow> [if srv \<in> ready s then EtcdClose srv else EtcdHardStop srv])
       \<and> closeSession (s\<lparr>session := None\<rparr>) = s\<lparr>session := None\<rparr>
       \<and> closeClient (s\<lparr>client := None\<rparr>) = s\<lparr>client := None\<rparr>
       \<and> closeServer (s\<lparr>server := None\<rparr>) = s\<lparr>server := None\<rparr>
       \<and> (\<forall>wg2. fst (Close wg2 s')
              = Panic (if wg2 - 1 < 0 then ''sync: negative WaitGroup counter''
                       else ''close of closed channel''))"
proof -
  define a where "a = s\<lparr>done_closed := True\<rparr>"
  define b where "b = closeSession a"
  define c where "c = closeClient b"
  have s': "s' = closeServer c"
    using assms(1,2) by (simp add: s'_def Close_def wg_Done_def a_def b_def c_def)
  have r: "fst (Close wg s) = Return ()"
    using assms(1,2) by (simp add: Close_def wg_Done_def)
  have ca: "calls a = calls s @ issued s a" and ia: "issued s a = []"
    by (simp_all add: a_def issued_def)
  have cb: "calls b = calls a @ issued a b"
    unfolding b_def by (rule closeSession_calls(2))
  have cc: "calls c = calls b @ issued b c"
    unfolding c_def by (rule closeClient_calls(2))
  have cd: "calls s' = calls c @ issued c s'"
    unfolding s' by (rule closeServer_calls(2))
  note ib = issued_trans [OF ca cb] calls_trans [OF ca cb]
  note ic = issued_trans [OF ib(2) cc] calls_trans [OF ib(2) cc]
  have id: "issued s s' = issued a b @ issued b c @ issued c s'"
    unfolding issued_trans [OF ic(2) cd] ic(1) ib(1) ia by simp
  have f: "session s' = None" "client s' = None" "server s' = None" "done_closed s'"
    by (simp_all add: s' c_def b_def a_def closeSession_calls closeClient_calls closeServer_calls)
  have v: "issued a b = (case session s of None \<Rightarrow> [] | Some se \<Rightarrow> [SessionClose se])"
    "issued b c = (case client s of None \<Rightarrow> [] | Some cl \<Rightarrow> [ClientClose cl])"
    "issued c s' = (case server s of
                  None \<Rightarrow> []
                | Some srv \<Rightarrow> [if srv \<in> ready s then EtcdClose srv else EtcdHardStop srv])"
    by (simp_all add: s' c_def b_def a_def closeSession_calls closeClient_calls closeServer_calls
        cong: option.case_cong)
  have p: "fst (Close wg2 s') = Panic (if wg2 - 1 < 0 then ''sync: negative WaitGroup counter''
                       else ''close of closed channel'')" for wg2
    using f(4) by (simp add: Close_def wg_Done_def)
  show ?thesis
    using r f p by (simp add: id v closeSession_def closeClient_def closeServer_def)
qed

theorem close_once_witness:
  "\<not> done_closed cluster_ready \<and> (0 :: int) < 1
   \<and> fst (Close 1 cluster_ready) = Return ()
   \<and> issued cluster_ready (snd (snd (Close 1 cluster_ready))) = [ClientClose 0]
   \<and> fst (Close 1 (snd (snd (Close 1 cluster_ready)))) = Panic ''close of closed channel''"
proof -
  have h: "\<not> done_closed cluster_ready" "(0 :: int) < 1"
    by (simp_all add: cluster_ready_def cluster_new_def)
  have v: "session cluster_ready = None" "client cluster_ready = Some 0"
    "server cluster_ready = None"
    by (simp_all add: cluster_ready_def cluster_new_def)
  from close_once [OF h] h show ?thesis
    by (simp add: v)
qed

section \<open>Lease recovery\<close>

lemma initLease_recover:
  assumes "\<forall>t c. \<not> fails (env s) t c"
    and "lease s = None"
    and "kv s (Lease_key (layout s)) = Some (str, u)"
    and "strTolease str = Inr l"
  shows "fst (initLease s) = None \<and> lease (snd (initLease s)) = Some l
       \<and> LeaseGrant \<notin> set (issued s (snd (initLease s)))"
  using assms
  by (simp add: initLease_def Get_def getClient_def getLease_def issue_def logf_def issued_def
        Let_def split_beta split: option.splits)

lemma initLease_grant_step:
  assumes "lease s = None"
    and "fst (Get (Lease_key (layout s)) s) = Inr None"
    and "client (snd (Get (Lease_key (layout s)) s)) = Some cl"
    and "\<not> fails (env s) (length (calls (snd (Get (Lease_key (layout s)) s)))) LeaseGrant"
  defines "key \<equiv> Lease_key (layout s)"
  defines "s1 \<equiv> snd (Get (Lease_key (layout s)) s)"
  defines "l \<equiv> granted (env s) (length (calls s1))"
  defines "s4 \<equiv> s1\<lparr>calls := calls s1 @ [LeaseGrant], lease := Some l,
                   logs := logs s1 @ [''lease is ready'']\<rparr>"
  shows "initLease s =
      (if fails (env s) (Suc (length (calls s1))) (KVPut key (fmt_x l) l)
       then (Some (PutLeaseFailed key (CallFailed (KVPut key (fmt_x l) l))),
             s4\<lparr>calls := calls s4 @ [KVPut key (fmt_x l) l]\<rparr>)
       else (None, s4\<lparr>calls := calls s4 @ [KVPut key (fmt_x l) l],
                      kv := (kv s)(key \<mapsto> (fmt_x l, l))\<rparr>))"
proof -
  have c4: "client s4 = Some cl" "lease s4 = Some l"
    using assms(3) by (simp_all add: s4_def s1_def)
  have e: "env s4 = env s" "layout s4 = layout s" "kv s4 = kv s"
      "length (calls s4) = Suc (length (calls s1))"
    by (simp_all add: s4_def s1_def)
  have "initLease s =
      (case PutUnderLease key (fmt_x l) s4 of
                (Some e, s5) \<Rightarrow> (Some (PutLeaseFailed (Lease_key (layout s5)) e), s5)
              | (None, s5) \<Rightarrow> (None, s5))"
  proof -
    have g: "Get (Lease_key (layout s)) s = (Inr None, s1)"
      using assms(2) by (simp add: s1_def prod_eq_iff)
    have c1: "getClient s1 = (Inr cl, s1)"
      using assms(3) by (simp add: getClient_cached s1_def)
    have e1: "env s1 = env s" "layout s1 = layout s" by (simp_all add: s1_def)
    show ?thesis
      using assms(1,4)
      by (simp add: initLease_def getLease_def g c1 e1 issue_def logf_def Let_def
          s4_def l_def key_def s1_def [symmetric])
  qed
  also have "\<dots> = (if fails (env s) (Suc (length (calls s1))) (KVPut key (fmt_x l) l)
       then (Some (PutLeaseFailed key (CallFailed (KVPut key (fmt_x l) l))),
             s4\<lparr>calls := calls s4 @ [KVPut key (fmt_x l) l]\<rparr>)
       else (None, s4\<lparr>calls := calls s4 @ [KVPut key (fmt_x l) l],
                      kv := (kv s)(key \<mapsto> (fmt_x l, l))\<rparr>))"
    unfolding PutUnderLease_cached [OF c4] e by (simp add: e key_def)
  finally show ?thesis .
qed

text \<open>
  C6.  When no call fails, \<^verbatim>\<open>initLease\<close> on a cluster with no lease cached and none
  persisted is granted a lease \<open>l\<close> (any id: the store chooses it), caches it and
  persists \<open>fmt_x l\<close> at the lease key; that text parses back to \<open>l\<close>.  After a restart
  (cache cleared, store kept) \<^verbatim>\<open>initLease\<close> succeeds again, caches the same \<open>l\<close>, and
  issues no grant.
\<close>

theorem lease_recovery_roundtrip:
  assumes "\<forall>t c. \<not> fails (env s) t c"
    and "lease s = None"
    and "kv s (Lease_key (layout s)) = None"
  defines "key \<equiv> Lease_key (layout s)"
  defines "l \<equiv> granted (env s) (length (calls (snd (Get (Lease_key (layout s)) s))))"
  defines "s1 \<equiv> snd (initLease s)"
  defines "s2 \<equiv> snd (initLease (restart s1))"
  shows "fst (initLease s) = None
       \<and> lease s1 = Some l
       \<and> kv s1 key = Some (fmt_x l, l)
       \<and> strTolease (fmt_x l) = Inr l
       \<and> fst (initLease (restart s1)) = None
       \<and> lease s2 = Some l
       \<and> LeaseGrant \<notin> set (issued (restart s1) s2)"
proof -
  have g: "fst (Get (Lease_key (layout s)) s) = Inr None"
    using Get_nofail [OF assms(1), of "Lease_key (layout s)"] assms(3) by simp
  obtain cl where c: "client (snd (Get (Lease_key (layout s)) s)) = Some cl"
    using Get_client [OF g] by auto
  have n: "\<not> fails (env s) t c" for t c
    using assms(1) by blast
  note i = initLease_grant_step [OF assms(2) g c n, unfolded if_not_P [OF n], folded l_def key_def]
  have r: "fst (initLease s) = None" "lease s1 = Some l" "kv s1 key = Some (fmt_x l, l)"
    "layout s1 = layout s" "env s1 = env s"
    unfolding s1_def i by simp_all
  have "\<forall>t c. \<not> fails (env (restart s1)) t c"
    using assms(1) r(5) by (simp add: restart_def)
  moreover have "lease (restart s1) = None" by (simp add: restart_def)
  moreover have "kv (restart s1) (Lease_key (layout (restart s1))) = Some (fmt_x l, l)"
    using r(3,4) by (simp add: restart_def key_def)
  ultimately have
    "fst (initLease (restart s1)) = None \<and> lease (snd (initLease (restart s1))) = Some l
       \<and> LeaseGrant \<notin> set (issued (restart s1) (snd (initLease (restart s1))))"
    using strTolease_fmt_x [of l] by (rule initLease_recover)
  with r strTolease_fmt_x [of l] show ?thesis unfolding s2_def by blast
qed

theorem lease_recovery_roundtrip_witness:
  "(\<forall>t c. \<not> fails (env cluster_new) t c) \<and> lease cluster_new = None
     \<and> kv cluster_new (Lease_key (layout cluster_new)) = None
     \<and> fst (initLease cluster_new) = None
     \<and> lease (snd (initLease cluster_new)) = Some 1002
     \<and> kv (snd (initLease cluster_new)) ''/leases/member-1'' = Some (''3ea'', 1002)
     \<and> lease (snd (initLease (restart (snd (initLease cluster_new))))) = Some 1002
     \<and> LeaseGrant \<notin> set (issued (restart (snd (initLease cluster_new)))
                              (snd (initLease (restart (snd (initLease cluster_new))))))"
proof -
  have h: "\<forall>t c. \<not> fails (env cluster_new) t c" "lease cluster_new = None"
    "kv cluster_new (Lease_key (layout cluster_new)) = None"
    by (simp_all add: cluster_new_def env_ok_def)
  have k: "Lease_key (layout cluster_new) = ''/leases/member-1''"
    by (simp add: cluster_new_def)
  have l: "granted (env cluster_new) (length (calls (snd (Get ''/leases/member-1'' cluster_new))))
             = 1002"
    by (simp add: Get_def getClient_def issue_def logf_def Let_def split_beta
        cluster_new_def env_ok_def knownPeerURLs_def)
  have f: "fmt_x 1002 = ''3ea''"
    by (simp add: fmt_x_def fmt_hex_loop.simps ldigits_def)
  from lease_recovery_roundtrip [OF h] h show ?thesis
    by (simp add: k l f)
qed

section \<open>Caching a granted lease before persisting it\<close>

text \<open>
  C7.  Take an execution of \<^verbatim>\<open>initLease\<close> that grants a new lease: nothing is cached,
  the read of the lease key succeeds and finds no record, and the grant, issued as call
  \<open>t\<close>, succeeds with id \<open>l\<close>.  Then the calls after the read are the grant and one put
  of \<open>fmt_x l\<close> under lease \<open>l\<close>: the put carries the id that \<open>PutUnderLease\<close> read
  from the cache, so the cache was filled before the put was issued (with an empty
  cache the put is refused with \<open>LeaseNotReady\<close> and nothing is issued).  Whether the
  put fails or not, \<open>l\<close> is cached at the end and \<^verbatim>\<open>getLease\<close> returns it; when the put
  fails \<^verbatim>\<open>initLease\<close> returns the wrapped put error and the store is unchanged.
\<close>

theorem initLease_caches_before_persisting:
  assumes "lease s = None"
    and "fst (Get (Lease_key (layout s)) s) = Inr None"
    and "\<not> fails (env s) (length (calls (snd (Get (Lease_key (layout s)) s)))) LeaseGrant"
  defines "key \<equiv> Lease_key (layout s)"
  defines "t \<equiv> length (calls (snd (Get (Lease_key (layout s)) s)))"
  defines "l \<equiv> granted (env s) t"
  defines "s' \<equiv> snd (initLease s)"
  shows "lease s' = Some l \<and> getLease s' = Inr l
       \<and> issued (snd (Get key s)) s' = [LeaseGrant, KVPut key (fmt_x l) l]
       \<and> (if fails (env s) (Suc t) (KVPut key (fmt_x l) l)
          then fst (initLease s) = Some (PutLeaseFailed key (CallFailed (KVPut key (fmt_x l) l)))
             \<and> kv s' = kv s
          else fst (initLease s) = None \<and> kv s' = (kv s)(key \<mapsto> (fmt_x l, l)))
       \<and> fst (PutUnderLease key (fmt_x l) (s'\<lparr>lease := None\<rparr>)) = Some LeaseNotReady
       \<and> issued s' (snd (PutUnderLease key (fmt_x l) (s'\<lparr>lease := None\<rparr>))) = []"
proof -
  obtain cl where c: "client (snd (Get (Lease_key (layout s)) s)) = Some cl"
    using Get_client [OF assms(2)] by auto
  note i = initLease_grant_step [OF assms(1,2) c assms(3)]
  have c': "client s' = Some cl"
    unfolding s'_def i using c by simp
  have n: "PutUnderLease key (fmt_x l) (s'\<lparr>lease := None\<rparr>)
             = (Some LeaseNotReady, s'\<lparr>lease := None\<rparr>)"
    by (rule PutUnderLease_no_lease [where cl = cl]) (simp_all add: c')
  have "issued s' (s'\<lparr>lease := None\<rparr>) = []"
    by (simp add: issued_def)
  then show ?thesis
    unfolding n unfolding s'_def i
    by (simp add: issued_def getLease_def key_def t_def l_def)
qed

theorem initLease_caches_before_persisting_witness:
  "lease cluster_put_fails = None
   \<and> fst (Get ''/leases/member-1'' cluster_put_fails) = Inr None
   \<and> fst (initLease cluster_put_fails)
       = Some (PutLeaseFailed ''/leases/member-1''
                 (CallFailed (KVPut ''/leases/member-1'' (fmt_x 1002) 1002)))
   \<and> getLease (snd (initLease cluster_put_fails)) = Inr 1002"
proof -
  have k: "Lease_key (layout cluster_put_fails) = ''/leases/member-1''"
    by (simp add: cluster_put_fails_def cluster_new_def)
  have h: "lease cluster_put_fails = None"
    "fst (Get (Lease_key (layout cluster_put_fails)) cluster_put_fails) = Inr None"
    "\<not> fails (env cluster_put_fails)
        (length (calls (snd (Get (Lease_key (layout cluster_put_fails)) cluster_put_fails))))
        LeaseGrant"
    by (simp_all add: Get_def getClient_def issue_def logf_def Let_def split_beta
        cluster_put_fails_def cluster_new_def env_ok_def knownPeerURLs_def)
  have g: "granted (env cluster_put_fails)
        (length (calls (snd (Get ''/leases/member-1'' cluster_put_fails)))) = 1002"
    "fails (env cluster_put_fails) t' (KVPut a b c)" for t' a b c
    by (simp_all add: Get_def getClient_def issue_def logf_def Let_def split_beta
        cluster_put_fails_def cluster_new_def env_ok_def knownPeerURLs_def)
  from initLease_caches_before_persisting [OF h] h(1,2) show ?thesis
    by (simp add: k g)
qed

section \<open>Purging a name that the store does not list\<close>

lemma purge_orphan_cached:
  assumes "client s \<noteq> None"
    and "\<forall>t c. \<not> fails (env s) t c"
    and "name \<notin> pb_Name ` set (etcd_members s)"
    and "kv s (OtherLease (layout s) name) = Some (str, u)"
    and "strTolease str = Inr l"
  defines "s' \<equiv> snd (PurgeMember name s)"
  shows "fst (PurgeMember name s) = None
       \<and> calls s' = calls s @ issued s s'
       \<and> filter is_mutation (issued s s') = [LeaseRevoke l]
       \<and> etcd_members s' = etcd_members s
       \<and> kv s' = (\<lambda>k. case kv s k of
                         None \<Rightarrow> None
                       | Some (v, l') \<Rightarrow> if l' = l then None else Some (v, l'))"
proof -
  have n: "find_id name (etcd_members s) None = None"
    using assms(3) by (simp add: find_id_None_iff)
  show ?thesis
    using assms(1,2,4,5) unfolding s'_def
    by (simp add: PurgeMember_def purge_lease_def lease_revoke_def revoke_keys_def n
        Get_def getClient_the issue_def issued_def Let_def)
qed

text \<open>
  C8.  For a name with a persisted lease record that parses to the lease \<open>l\<close> and with
  no member of that name in the store's member list, when every call succeeds,
  \<^verbatim>\<open>PurgeMember\<close> succeeds; the only store mutation it issues is the revocation of \<open>l\<close>
  (so no member-remove), the member list is unchanged, and every key written under \<open>l\<close>
  is gone.
\<close>

theorem purge_without_store_membership:
  assumes "\<forall>t c. \<not> fails (env s) t c"
    and "name \<notin> pb_Name ` set (etcd_members s)"
    and "kv s (OtherLease (layout s) name) = Some (str, u)"
    and "strTolease str = Inr l"
  defines "s' \<equiv> snd (PurgeMember name s)"
  shows "fst (PurgeMember name s) = None
       \<and> filter is_mutation (issued s s') = [LeaseRevoke l]
       \<and> etcd_members s' = etcd_members s
       \<and> kv s' = (\<lambda>k. case kv s k of
                         None \<Rightarrow> None
                       | Some (v, l') \<Rightarrow> if l' = l then None else Some (v, l'))"
proof -
  define s1 where "s1 = snd (getClient s)"
  obtain cl where cl: "fst (getClient s) = Inr cl"
    using getClient_nofail [OF assms(1)] by blast
  have p: "PurgeMember name s = PurgeMember name s1"
    unfolding s1_def by (rule PurgeMember_getClient [OF cl])
  have e: "etcd_members s1 = etcd_members s" "kv s1 = kv s" "layout s1 = layout s"
    "env s1 = env s"
    by (simp_all add: s1_def)
  have 1: "client s1 \<noteq> None"
    using getClient_Inr [OF cl] by (simp add: s1_def)
  note c = purge_orphan_cached [of s1 name str u l, unfolded e, OF 1 assms(1-4),
      folded p, folded s'_def]
  have g: "calls s1 = calls s @ issued s s1"
    unfolding s1_def by (rule getClient_calls)
  have i: "issued s s' = issued s s1 @ issued s1 s'"
    using g c by (intro issued_trans) simp_all
  have m: "filter is_mutation (issued s s1) = []"
    unfolding s1_def by (rule getClient_no_mutation)
  show ?thesis
    using c m by (simp add: i)
qed

theorem purge_without_store_membership_witness:
  "(\<forall>t c. \<not> fails (env cluster_orphan_lease) t c)
   \<and> ''member-2'' \<notin> pb_Name ` set (etcd_members cluster_orphan_lease)
   \<and> kv cluster_orphan_lease (OtherLease (layout cluster_orphan_lease) ''member-2'')
        = Some (''2a'', 42)
   \<and> strTolease ''2a'' = Inr 42
   \<and> fst (PurgeMember ''member-2'' cluster_orphan_lease) = None
   \<and> filter is_mutation
        (issued cluster_orphan_lease (snd (PurgeMember ''member-2'' cluster_orphan_lease)))
        = [LeaseRevoke 42]
   \<and> kv (snd (PurgeMember ''member-2'' cluster_orphan_lease)) ''/leases/member-2'' = None"
proof -
  have h: "\<forall>t c. \<not> fails (env cluster_orphan_lease) t c"
    "''member-2'' \<notin> pb_Name ` set (etcd_members cluster_orphan_lease)"
    "kv cluster_orphan_lease (OtherLease (layout cluster_orphan_lease) ''member-2'')
        = Some (''2a'', 42)"
    by (simp_all add: cluster_orphan_lease_def cluster_ready_def cluster_new_def env_ok_def)
  have p: "strTolease ''2a'' = Inr 42"
    by (simp add: strTolease_def ParseInt_def ParseUint_def digit_of_def lower_def
        cutoff16_def maxVal_def)
  have k: "kv cluster_orphan_lease ''/leases/member-2'' = Some (''2a'', 42)"
    by (simp add: cluster_orphan_lease_def)
  from purge_without_store_membership [OF h p] h p show ?thesis
    by (simp add: k)
qed

section \<open>The heartbeat loop\<close>













section \<open>The server monitor\<close>

lemma cluster_serving_server:
  "server cluster_serving = Some 1 \<and> 1 \<in> ready cluster_serving
   \<and> monitored cluster_serving = [1] \<and> \<not> done_closed cluster_serving"
  by (simp add: cluster_serving_def startServer_def issue_def logf_def
      cluster_new_def env_ok_def)

text \<open>
  C10.  When the monitor of the cached server \<open>srv\<close> sees a server error, it stops the
  server and returns; the field \<^verbatim>\<open>c.server\<close> still holds \<open>srv\<close>, so \<^verbatim>\<open>getServer\<close> returns
  the stopped handle, not \<open>ServerNotReady\<close>.  After \<^verbatim>\<open>closeServer\<close>, or after \<^verbatim>\<open>Close\<close> on
  a cluster whose \<^verbatim>\<open>c.done\<close> is open, \<^verbatim>\<open>getServer\<close> fails with \<open>ServerNotReady\<close>.
\<close>

theorem monitor_leaves_server_cached:
  assumes "server s = Some srv"
  defines "s' \<equiv> snd (monitorServer srv ServerErr s)"
  shows "fst (monitorServer srv ServerErr s) = Return ()
       \<and> srv \<in> stopped s'
       \<and> server s' = Some srv
       \<and> getServer s' = Inr srv
       \<and> getServer (closeServer s') = Inl ServerNotReady
       \<and> (\<not> done_closed s \<longrightarrow> (\<forall>wg. getServer (snd (snd (Close wg s'))) = Inl ServerNotReady))"
proof -
  have m: "monitorServer srv ServerErr s
             = (Return (), closeEtcdServer srv (logf ''%s serve faield: %v'' s))"
    using assms(1) by (simp add: monitorServer_def)
  have f: "srv \<in> stopped s'" "server s' = Some srv" "done_closed s' = done_closed s"
    using assms(1)
    by (simp_all add: s'_def m closeEtcdServer_def issue_def logf_def Let_def)
  have n: "getServer x = Inl ServerNotReady" if "server x = None" for x
    using that by (simp add: getServer_def)
  have c: "getServer (closeServer s') = Inl ServerNotReady"
    by (rule n) (rule closeServer_calls(3))
  have d: "getServer (snd (snd (Close wg s'))) = Inl ServerNotReady"
    if "\<not> done_closed s" for wg
  proof -
    have "snd (snd (Close wg s'))
            = closeServer (closeClient (closeSession (s'\<lparr>done_closed := True\<rparr>)))"
      using that f(3) by (simp add: Close_def wg_Done_def split_beta)
    then show ?thesis
      by (simp add: n closeServer_calls(3))
  qed
  show ?thesis
    using f(1,2) c d by (simp add: m getServer_def)
qed

theorem monitor_leaves_server_cached_witness:
  "server cluster_serving = Some 1
   \<and> \<not> done_closed cluster_serving
   \<and> 1 \<in> stopped (snd (monitorServer 1 ServerErr cluster_serving))
   \<and> getServer (snd (monitorServer 1 ServerErr cluster_serving)) = Inr 1
   \<and> getServer (closeServer (snd (monitorServer 1 ServerErr cluster_serving)))
        = Inl ServerNotReady
   \<and> getServer (snd (snd (Close 1 (snd (monitorServer 1 ServerErr cluster_serving)))))
        = Inl ServerNotReady"
proof -
  have h: "server cluster_serving = Some 1" and d: "\<not> done_closed cluster_serving"
    using cluster_serving_server by simp_all
  from monitor_leaves_server_cached [OF h] h d show ?thesis
    by simp
qed

end
